theory Spec2Isabelle
  imports Main "HOL-Library.Sublist"
begin

section \<open>Python strings\<close>

text \<open>
  A Python \<^verbatim>\<open>str\<close> is a \<^typ>\<open>string\<close>: a list of characters, each read as a code point
  below 256. \<^verbatim>\<open>x in s\<close> on strings is \<^const>\<open>sublist\<close>, \<^verbatim>\<open>s.startswith(p)\<close> is
  \<^term>\<open>prefix p s\<close>, \<^verbatim>\<open>s.endswith(p)\<close> is \<^term>\<open>suffix p s\<close> and \<^verbatim>\<open>len\<close> is
  \<^const>\<open>length\<close>.
\<close>

abbreviation NL :: char where
  "NL \<equiv> CHR 0x0A"

abbreviation startswith :: "string \<Rightarrow> string \<Rightarrow> bool" where
  "startswith s p \<equiv> prefix p s"

abbreviation endswith :: "string \<Rightarrow> string \<Rightarrow> bool" where
  "endswith s p \<equiv> suffix p s"

abbreviation contains :: "string \<Rightarrow> string \<Rightarrow> bool" where
  "contains s x \<equiv> sublist x s"

text \<open>
  \<^verbatim>\<open>str.isspace\<close> on one character, for the code points below 256: tab, line feed,
  vertical tab, form feed, carriage return, the separators 0x1C to 0x1F, space, NEL
  (0x85) and the no-break space (0xA0). \<^verbatim>\<open>lstrip()\<close>, \<^verbatim>\<open>strip()\<close> and the regular
  expression class \<^verbatim>\<open>\s\<close> all use this set.
\<close>

definition isspace :: "char \<Rightarrow> bool" where
  "isspace c = (c \<in> set [CHR 0x09, CHR 0x0A, CHR 0x0B, CHR 0x0C, CHR 0x0D, CHR 0x1C,
                          CHR 0x1D, CHR 0x1E, CHR 0x1F, CHR 0x20, CHR 0x85, CHR 0xA0])"

definition lstrip :: "string \<Rightarrow> string" where
  "lstrip s = dropWhile isspace s"

definition rstrip :: "string \<Rightarrow> string" where
  "rstrip s = rev (dropWhile isspace (rev s))"

definition strip :: "string \<Rightarrow> string" where
  "strip s = rstrip (lstrip s)"

text \<open>\<^verbatim>\<open>s.split('\n')\<close>: one piece more than there are line feeds, never the empty list.\<close>

fun split_nl :: "string \<Rightarrow> string list" where
  "split_nl [] = [[]]"
| "split_nl (c # cs) =
     (let rest = split_nl cs
      in if c = NL then [] # rest else (c # hd rest) # tl rest)"

text \<open>\<^verbatim>\<open>'\n'.join(lines)\<close>.\<close>

fun join_nl :: "string list \<Rightarrow> string" where
  "join_nl [] = []"
| "join_nl [l] = l"
| "join_nl (l # ls) = l @ NL # join_nl ls"

text \<open>
  \<^verbatim>\<open>s.splitlines()\<close>: the line boundaries below 256 are line feed, carriage return
  (with a following line feed, if any), vertical tab, form feed, 0x1C, 0x1D, 0x1E and
  NEL; the boundaries are dropped and a final boundary opens no empty line. The first
  argument is the line read so far.
\<close>

definition is_linebreak :: "char \<Rightarrow> bool" where
  "is_linebreak c = (c \<in> set [CHR 0x0A, CHR 0x0B, CHR 0x0C, CHR 0x0D, CHR 0x1C, CHR 0x1D,
                              CHR 0x1E, CHR 0x85])"

fun splitlines_from :: "string \<Rightarrow> string \<Rightarrow> string list" where
  "splitlines_from cur [] = (if cur = [] then [] else [cur])"
| "splitlines_from cur [c] = (if is_linebreak c then [cur] else [cur @ [c]])"
| "splitlines_from cur (c # d # cs) =
     (if c = CHR 0x0D \<and> d = CHR 0x0A then cur # splitlines_from [] cs
      else if is_linebreak c then cur # splitlines_from [] (d # cs)
      else splitlines_from (cur @ [c]) (d # cs))"

definition splitlines :: "string \<Rightarrow> string list" where
  "splitlines s = splitlines_from [] s"

section \<open>The docstring indentation fixer\<close>

text \<open>
  \<^verbatim>\<open>fix_docstring_indentation\<close> (agent.py) walks the lines of the text with two
  variables, \<^verbatim>\<open>in_docstring\<close> and \<^verbatim>\<open>docstring_indent\<close>. \<open>fix_line\<close> is one turn of its
  \<^verbatim>\<open>while\<close> loop: from the two variables and the line at \<^verbatim>\<open>i\<close> it gives the line
  appended to \<^verbatim>\<open>fixed_lines\<close> and the variables after the turn.
\<close>

definition triple_quote :: string where
  \<open>triple_quote = ''"""''\<close>

definition section_keywords :: "string list" where
  "section_keywords = [''Args:'', ''Returns:'', ''Yields:'', ''Raises:'']"

definition startswith_any :: "string \<Rightarrow> string list \<Rightarrow> bool" where
  "startswith_any s ps = list_ex (\<lambda>p. startswith s p) ps"

definition spaces :: "nat \<Rightarrow> string" where
  "spaces n = replicate n CHR 0x20"

definition fix_line :: "bool \<times> nat \<Rightarrow> string \<Rightarrow> string \<times> (bool \<times> nat)" where
  "fix_line st line =
     (let in_docstring = fst st; docstring_indent = snd st in
      if contains line triple_quote \<and> \<not> in_docstring then
        (line, (True, length line - length (lstrip line)))
      else if in_docstring then
        (let stripped = lstrip line;
             fixed =
               (if startswith_any stripped section_keywords then
                  spaces (docstring_indent + 4) @ stripped
                else if stripped \<noteq> [] \<and> \<not> startswith stripped triple_quote then
                  (let current_indent = length line - length stripped in
                   if current_indent \<le> docstring_indent + 4 then
                     spaces (docstring_indent + 8) @ stripped
                   else line)
                else line)
         in if contains line triple_quote \<and> endswith (strip line) triple_quote
               \<and> \<not> startswith (strip line) triple_quote
            then (fixed, (False, 0))
            else (fixed, (in_docstring, docstring_indent)))
      else (line, (in_docstring, docstring_indent)))"

text \<open>
  The loop over \<^verbatim>\<open>lines[i:]\<close>: the lines appended to \<^verbatim>\<open>fixed_lines\<close> from here on, and
  the two variables when the loop ends.
\<close>

fun fix_loop :: "bool \<times> nat \<Rightarrow> string list \<Rightarrow> string list \<times> (bool \<times> nat)" where
  "fix_loop st [] = ([], st)"
| "fix_loop st (line # rest) =
     (let r = fix_line st line; rs = fix_loop (snd r) rest
      in (fst r # fst rs, snd rs))"

definition fix_docstring_indentation :: "string \<Rightarrow> string" where
  "fix_docstring_indentation code = join_nl (fst (fix_loop (False, 0) (split_nl code)))"


section \<open>Python values and exceptions\<close>

text \<open>
  The response of the provider is dynamically typed. A value is a \<^verbatim>\<open>str\<close>, a \<^verbatim>\<open>bytes\<close>
  object, a \<^verbatim>\<open>list\<close>, a \<^verbatim>\<open>dict\<close> with \<^verbatim>\<open>str\<close> keys (in insertion order), or any other
  object that has no \<^verbatim>\<open>strip\<close> method: \<open>PyObject\<close> holds the name of its type, the text
  \<^verbatim>\<open>str()\<close> gives for it, and the value of its \<^verbatim>\<open>content\<close> attribute when it has one (a
  chat message has, \<^verbatim>\<open>None\<close> or a number has not).
\<close>

datatype pyval =
    PyStr string
  | PyBytes string
  | PyList "pyval list"
  | PyDict "(string \<times> pyval) list"
  | PyObject string string "pyval option"

text \<open>
  A raised exception: the name of its class and its message, the text of \<^verbatim>\<open>str(e)\<close>.
  \<open>PyExn\<close> is an instance of \<^verbatim>\<open>Exception\<close>; \<open>PyBaseExn\<close> is an instance of
  \<^verbatim>\<open>BaseException\<close> that is not an instance of \<^verbatim>\<open>Exception\<close> (\<^verbatim>\<open>KeyboardInterrupt\<close>,
  \<^verbatim>\<open>SystemExit\<close>, \<^verbatim>\<open>GeneratorExit\<close>, or a class derived from \<^verbatim>\<open>BaseException\<close> directly).
\<close>

datatype py_exn = PyExn string string | PyBaseExn string string

fun exn_message :: "py_exn \<Rightarrow> string" where
  "exn_message (PyExn cls msg) = msg"
| "exn_message (PyBaseExn cls msg) = msg"

fun exn_class :: "py_exn \<Rightarrow> string" where
  "exn_class (PyExn cls msg) = cls"
| "exn_class (PyBaseExn cls msg) = cls"

text \<open>\<^verbatim>\<open>isinstance(e, Exception)\<close>.\<close>

fun is_exception :: "py_exn \<Rightarrow> bool" where
  "is_exception (PyExn cls msg) = True"
| "is_exception (PyBaseExn cls msg) = False"

fun type_name :: "pyval \<Rightarrow> string" where
  "type_name (PyStr s) = ''str''"
| "type_name (PyBytes b) = ''bytes''"
| "type_name (PyList xs) = ''list''"
| "type_name (PyDict kvs) = ''dict''"
| "type_name (PyObject t s c) = t"

text \<open>
  \<^verbatim>\<open>str(v)\<close>. For a \<^verbatim>\<open>bytes\<close> object, a list or a dict it is the \<^verbatim>\<open>repr\<close> of the value,
  which the model takes as a parameter.
\<close>

fun py_str :: "(pyval \<Rightarrow> string) \<Rightarrow> pyval \<Rightarrow> string" where
  "py_str repr (PyStr s) = s"
| "py_str repr (PyObject t s c) = s"
| "py_str repr v = repr v"

text \<open>A natural number in decimal, for the messages of the interpreter.\<close>

fun decimal :: "nat \<Rightarrow> string" where
  "decimal n =
     (if n < 10 then [''0123456789'' ! n]
      else decimal (n div 10) @ [''0123456789'' ! (n mod 10)])"

text \<open>
  \<^verbatim>\<open>''.join(texts)\<close>: the concatenation when every item is a \<^verbatim>\<open>str\<close>, a \<^verbatim>\<open>TypeError\<close> at the
  first item that is not. The first argument is the index of the head of the list.
\<close>

fun join_items :: "nat \<Rightarrow> pyval list \<Rightarrow> py_exn + string" where
  "join_items i [] = Inr []"
| "join_items i (PyStr s # rest) =
     (case join_items (Suc i) rest of Inl e \<Rightarrow> Inl e | Inr r \<Rightarrow> Inr (s @ r))"
| "join_items i (v # rest) =
     Inl (PyExn ''TypeError''
            (''sequence item '' @ decimal i @ '': expected str instance, '' @ type_name v
             @ '' found''))"

text \<open>
  \<^verbatim>\<open>v.strip()\<close> on a value that may not be a \<^verbatim>\<open>str\<close>. \<^verbatim>\<open>bytes.strip()\<close> takes the ASCII
  whitespace off both ends and gives \<^verbatim>\<open>bytes\<close>; a list, a dict or an object of
  \<open>PyObject\<close> has no such method.
\<close>

definition bytes_isspace :: "char \<Rightarrow> bool" where
  "bytes_isspace c = (c \<in> set [CHR 0x09, CHR 0x0A, CHR 0x0B, CHR 0x0C, CHR 0x0D, CHR 0x20])"

fun strip_method :: "pyval \<Rightarrow> py_exn + pyval" where
  "strip_method (PyStr s) = Inr (PyStr (strip s))"
| "strip_method (PyBytes b) =
     Inr (PyBytes (rev (dropWhile bytes_isspace (rev (dropWhile bytes_isspace b)))))"
| "strip_method v =
     Inl (PyExn ''AttributeError''
            ([CHR 0x27] @ type_name v @ [CHR 0x27] @ '' object has no attribute ''
             @ [CHR 0x27] @ ''strip'' @ [CHR 0x27]))"

section \<open>The response extractor\<close>

text \<open>
  \<^verbatim>\<open>extract_text_from_response\<close> (agent.py). \<open>response_content\<close> is its first statement
  (\<^verbatim>\<open>hasattr(response, 'content')\<close>); \<open>item_text\<close> is what the loop over a list appends
  for one item: \<^verbatim>\<open>item.get('text', item.get('content', str(item)))\<close> for a dict, the item
  for a \<^verbatim>\<open>str\<close>, \<^verbatim>\<open>str(item)\<close> otherwise. The function is annotated \<^verbatim>\<open>-> str\<close>, but
  Python does not enforce that: the result is a value, or an exception.
\<close>

fun response_content :: "pyval \<Rightarrow> pyval" where
  "response_content (PyObject t s (Some c)) = c"
| "response_content response = response"

fun item_text :: "(pyval \<Rightarrow> string) \<Rightarrow> pyval \<Rightarrow> pyval" where
  "item_text repr (PyDict kvs) =
     (case map_of kvs ''text'' of
        Some v \<Rightarrow> v
      | None \<Rightarrow> (case map_of kvs ''content'' of
                   Some v \<Rightarrow> v
                 | None \<Rightarrow> PyStr (py_str repr (PyDict kvs))))"
| "item_text repr (PyStr s) = PyStr s"
| "item_text repr item = PyStr (py_str repr item)"

function extract_text_from_response :: "(pyval \<Rightarrow> string) \<Rightarrow> pyval \<Rightarrow> py_exn + pyval" where
  "extract_text_from_response repr response =
     (case response_content response of
        PyStr s \<Rightarrow> Inr (PyStr s)
      | PyBytes b \<Rightarrow> Inr (PyStr (py_str repr (PyBytes b)))
      | PyList items \<Rightarrow>
          (case join_items 0 (map (item_text repr) items) of
             Inl e \<Rightarrow> Inl e
           | Inr s \<Rightarrow> Inr (PyStr s))
      | PyDict kvs \<Rightarrow>
          (case map_of kvs ''text'' of
             Some v \<Rightarrow> Inr v
           | None \<Rightarrow>
               (case map_of kvs ''content'' of
                  Some c \<Rightarrow> extract_text_from_response repr c
                | None \<Rightarrow> Inr (PyStr (py_str repr (PyDict kvs)))))
      | PyObject t s c \<Rightarrow> Inr (PyStr (py_str repr (PyObject t s c))))"
  by pat_completeness auto
termination
proof (relation "measure (\<lambda>(repr, response). size response)")
  show "wf (measure (\<lambda>(repr, response). size response))"
    by simp
next
  fix repr :: "pyval \<Rightarrow> string" and response :: pyval and kvs c
  assume content: "response_content response = PyDict kvs"
    and found: "map_of kvs ''content'' = Some c"
  have looked_up: "size v < size (PyDict kvs')" if "map_of kvs' k = Some v"
    for kvs' :: "(string \<times> pyval) list" and k v
    using that by (induction kvs') (auto split: if_splits)
  have "size (response_content r) \<le> size r" for r
    by (induction r rule: response_content.induct) auto
  from this [of response] content have "size (PyDict kvs) \<le> size response"
    by simp
  with looked_up [OF found] show "((repr, c), (repr, response)) \<in> measure (\<lambda>(repr, response). size response)"
    by simp
qed

section \<open>The syntax checker\<close>

text \<open>
  \<^verbatim>\<open>ast.parse\<close> is the interpreter's parser; the model takes its outcome as a parameter:
  \<open>None\<close> when the text parses, the exception it raises otherwise. \<^verbatim>\<open>is_valid_python\<close>
  catches \<^verbatim>\<open>SyntaxError\<close> (with its subclasses \<^verbatim>\<open>IndentationError\<close> and \<^verbatim>\<open>TabError\<close>)
  and lets any other exception through.
\<close>

definition is_syntax_error :: "py_exn \<Rightarrow> bool" where
  "is_syntax_error e =
     (is_exception e \<and> exn_class e \<in> set [''SyntaxError'', ''IndentationError'', ''TabError''])"

definition is_valid_python :: "(string \<Rightarrow> py_exn option) \<Rightarrow> string \<Rightarrow> py_exn + bool" where
  "is_valid_python ast_parse code =
     (case ast_parse code of
        None \<Rightarrow> Inr True
      | Some e \<Rightarrow> if is_syntax_error e then Inr False else Inl e)"

section \<open>Searching in strings\<close>

text \<open>
  \<open>find_sub x s\<close> is the first occurrence of \<open>x\<close> in \<open>s\<close>: the text before it and the
  text after it.
\<close>

fun find_sub :: "string \<Rightarrow> string \<Rightarrow> (string \<times> string) option" where
  "find_sub x [] = (if x = [] then Some ([], []) else None)"
| "find_sub x (c # cs) =
     (if prefix x (c # cs) then Some ([], drop (length x) (c # cs))
      else (case find_sub x cs of
              None \<Rightarrow> None
            | Some (before, after) \<Rightarrow> Some (c # before, after)))"

text \<open>\<^verbatim>\<open>s.count(x)\<close>: the number of occurrences of \<open>x\<close> in \<open>s\<close> that do not overlap.\<close>

function count_sub :: "string \<Rightarrow> string \<Rightarrow> nat" where
  "count_sub x s =
     (if x = [] then Suc (length s)
      else if s = [] then 0
      else if prefix x s then Suc (count_sub x (drop (length x) s))
      else count_sub x (tl s))"
  by pat_completeness auto
termination
  by (relation "measure (\<lambda>(x, s). length s)") (auto simp: neq_Nil_conv)

declare count_sub.simps [simp del]

text \<open>
  The class \<^verbatim>\<open>\w\<close> of a regular expression on \<^verbatim>\<open>str\<close>: the underscore and the alphanumeric
  characters, which below 256 are the ASCII letters and digits, 0xAA, 0xB2, 0xB3, 0xB5,
  0xB9, 0xBA, 0xBC to 0xBE, and 0xC0 to 0xFF without 0xD7 and 0xF7.
\<close>

definition is_word :: "char \<Rightarrow> bool" where
  "is_word c =
     (let n = (of_char c :: nat) in
      c = CHR ''_'' \<or> (48 \<le> n \<and> n \<le> 57) \<or> (65 \<le> n \<and> n \<le> 90) \<or> (97 \<le> n \<and> n \<le> 122)
      \<or> n \<in> set [170, 178, 179, 181, 185, 186, 188, 189, 190]
      \<or> (192 \<le> n \<and> n \<le> 255 \<and> n \<noteq> 215 \<and> n \<noteq> 247))"

text \<open>
  \<^verbatim>\<open>re.search(r'"""(.*?)"""', cleaned, re.DOTALL)\<close>, group 0: the first triple quote, the
  shortest text after it up to a second triple quote, and that triple quote.
\<close>

definition docstring_match :: "string \<Rightarrow> string option" where
  "docstring_match cleaned =
     (case find_sub triple_quote cleaned of
        None \<Rightarrow> None
      | Some (before, after) \<Rightarrow>
          (case find_sub triple_quote after of
             None \<Rightarrow> None
           | Some (inner, rest) \<Rightarrow> Some (triple_quote @ inner @ triple_quote)))"

text \<open>
  \<^verbatim>\<open>re.search(r'def \w+\([^)]*\):', cleaned)\<close>, group 0. \<open>signature_at s\<close> is the match that
  starts at the head of \<open>s\<close>: \<^verbatim>\<open>def\<close> and a space, the longest run of word characters
  (not empty), an opening parenthesis, the text up to the first closing parenthesis,
  that parenthesis and a colon. The search takes the first position with a match.
\<close>

definition signature_at :: "string \<Rightarrow> string option" where
  "signature_at s =
     (if startswith s ''def '' then
        (let name = takeWhile is_word (drop 4 s);
             after_name = dropWhile is_word (drop 4 s)
         in if name \<noteq> [] \<and> startswith after_name ''('' then
              (let params = takeWhile (\<lambda>c. c \<noteq> CHR '')'') (drop 1 after_name);
                   after_params = dropWhile (\<lambda>c. c \<noteq> CHR '')'') (drop 1 after_name)
               in if startswith after_params ''):''
                  then Some (''def '' @ name @ ''('' @ params @ ''):'')
                  else None)
            else None)
      else None)"

fun signature_match :: "string \<Rightarrow> string option" where
  "signature_match [] = signature_at []"
| "signature_match (c # cs) =
     (case signature_at (c # cs) of
        Some m \<Rightarrow> Some m
      | None \<Rightarrow> signature_match cs)"

text \<open>
  The strings the signature pattern denotes: \<^verbatim>\<open>def\<close> and a space, one or more word
  characters, an opening parenthesis, any characters but a closing parenthesis, a
  closing parenthesis and a colon.
\<close>

definition signature_shape :: "string \<Rightarrow> bool" where
  "signature_shape m =
     (\<exists>name params. m = ''def '' @ name @ ''('' @ params @ ''):''
        \<and> name \<noteq> [] \<and> (\<forall>c \<in> set name. is_word c) \<and> CHR '')'' \<notin> set params)"

text \<open>
  \<^verbatim>\<open>re.search(r':\s*(.*)', original_code, re.DOTALL)\<close>, group 1: what follows the first
  colon and the whitespace after it.
\<close>

definition body_match :: "string \<Rightarrow> string option" where
  "body_match original_code =
     (case find_sub '':'' original_code of
        None \<Rightarrow> None
      | Some (before, after) \<Rightarrow> Some (dropWhile isspace after))"

section \<open>The post-processor\<close>

text \<open>
  \<^verbatim>\<open>clean_output\<close> (agent.py). \<open>kept_lines\<close> is the variable \<^verbatim>\<open>lines\<close> after the
  conditional filter, \<open>cleaned_text\<close> the variable \<^verbatim>\<open>cleaned\<close>; the first argument of both
  is the result of \<^verbatim>\<open>is_valid_python(original_code)\<close>. \<open>restore_body\<close> is the block under
  \<^verbatim>\<open>if cleaned.count('def ') == 1 and 'return' not in cleaned\<close>: the string it returns, or
  \<open>None\<close> when control falls through to \<^verbatim>\<open>return cleaned\<close>.
\<close>

definition todo_marker :: string where
  "todo_marker = ''# TODO: Fix syntax error''"

definition kept_lines :: "bool \<Rightarrow> string \<Rightarrow> string list" where
  "kept_lines valid output =
     (if valid then filter (\<lambda>line. \<not> contains line todo_marker) (splitlines output)
      else splitlines output)"

definition cleaned_text :: "bool \<Rightarrow> string \<Rightarrow> string" where
  "cleaned_text valid output = strip (join_nl (kept_lines valid output))"

definition restore_body :: "string \<Rightarrow> string \<Rightarrow> string option" where
  "restore_body cleaned original_code =
     (if count_sub ''def '' cleaned = 1 \<and> \<not> contains cleaned ''return'' then
        (case docstring_match cleaned of
           None \<Rightarrow> None
         | Some docstring \<Rightarrow>
             (case signature_match cleaned of
                None \<Rightarrow> None
              | Some sig \<Rightarrow>
                  (case body_match original_code of
                     Some body \<Rightarrow>
                       Some (sig @ [NL] @ ''    '' @ docstring @ [NL] @ ''    '' @ strip body)
                   | None \<Rightarrow>
                       Some (sig @ [NL] @ ''    '' @ docstring @ [NL] @ original_code))))
      else None)"

definition clean_output :: "(string \<Rightarrow> py_exn option) \<Rightarrow> string \<Rightarrow> string \<Rightarrow> py_exn + string" where
  "clean_output ast_parse output original_code =
     (case is_valid_python ast_parse original_code of
        Inl e \<Rightarrow> Inl e
      | Inr valid \<Rightarrow>
          (let cleaned = cleaned_text valid output
           in case restore_body cleaned original_code of
                Some restored \<Rightarrow> Inr restored
              | None \<Rightarrow> Inr cleaned))"

section \<open>The request handler\<close>

text \<open>
  \<^verbatim>\<open>generate_docstrings\<close> (agent.py). The chain \<^verbatim>\<open>docstring_prompt | llm\<close> is the external
  provider: \<open>chain_invoke\<close> takes the source code put into the prompt and the state of
  the world outside, and gives the response or the exception raised, and the state
  after the call. \<open>post_process\<close> is the rest of the \<^verbatim>\<open>try\<close> block, from the response on.
  \<open>except_Exception\<close> is the handler \<^verbatim>\<open>except Exception as e\<close>: an instance of
  \<^verbatim>\<open>Exception\<close> becomes the returned string, any other exception goes on to the caller.
\<close>

definition empty_input_error :: string where
  "empty_input_error = ''# Error: The provided source code is empty.''"

definition error_marker :: string where
  "error_marker = ''# Error generating docstrings: ''"

definition strip_fences :: "string \<Rightarrow> string" where
  "strip_fences raw_output =
     (let r1 = (if startswith raw_output ''```python'' then drop 9 raw_output else raw_output);
          r2 = (if startswith r1 ''```'' then drop 3 r1 else r1)
      in if endswith r2 ''```'' then take (length r2 - 3) r2 else r2)"

text \<open>
  The fence removal on the value \<^verbatim>\<open>strip()\<close> returned. That value is a \<^verbatim>\<open>str\<close> or a
  \<^verbatim>\<open>bytes\<close> object, and \<^verbatim>\<open>bytes.startswith\<close> refuses the \<^verbatim>\<open>str\<close> argument of the first
  test.
\<close>

fun strip_fences_of :: "pyval \<Rightarrow> py_exn + string" where
  "strip_fences_of (PyStr raw_output) = Inr (strip_fences raw_output)"
| "strip_fences_of v =
     Inl (PyExn ''TypeError'' ''startswith first arg must be bytes or a tuple of bytes, not str'')"

definition post_process ::
    "(pyval \<Rightarrow> string) \<Rightarrow> (string \<Rightarrow> py_exn option) \<Rightarrow> pyval \<Rightarrow> string \<Rightarrow> py_exn + string" where
  "post_process repr ast_parse response source_code =
     (case extract_text_from_response repr response of
        Inl e \<Rightarrow> Inl e
      | Inr text \<Rightarrow>
          (case strip_method text of
             Inl e \<Rightarrow> Inl e
           | Inr stripped \<Rightarrow>
               (case strip_fences_of stripped of
                  Inl e \<Rightarrow> Inl e
                | Inr raw_output \<Rightarrow>
                    (case clean_output ast_parse raw_output source_code of
                       Inl e \<Rightarrow> Inl e
                     | Inr cleaned \<Rightarrow> Inr (strip (fix_docstring_indentation cleaned))))))"

definition except_Exception :: "py_exn \<Rightarrow> py_exn + string" where
  "except_Exception e =
     (if is_exception e then Inr (error_marker @ exn_message e) else Inl e)"

definition generate_docstrings ::
    "(pyval \<Rightarrow> string) \<Rightarrow> (string \<Rightarrow> py_exn option) \<Rightarrow> (string \<Rightarrow> 'w \<Rightarrow> (py_exn + pyval) \<times> 'w)
     \<Rightarrow> string \<Rightarrow> 'w \<Rightarrow> (py_exn + string) \<times> 'w" where
  "generate_docstrings repr ast_parse chain_invoke source_code world =
     (if source_code = [] \<or> strip source_code = [] then (Inr empty_input_error, world)
      else
        (case chain_invoke source_code world of
           (Inl e, world') \<Rightarrow> (except_Exception e, world')
         | (Inr response, world') \<Rightarrow>
             (case post_process repr ast_parse response source_code of
                Inl e \<Rightarrow> (except_Exception e, world')
              | Inr documented \<Rightarrow> (Inr documented, world'))))"

section \<open>The HTTP endpoint\<close>

text \<open>
  The handler of \<^verbatim>\<open>POST /api/generate\<close> (app.py) with the two models of models.py. What
  the handler raises is the \<^verbatim>\<open>HTTPException\<close> of its size test, with status code and
  detail, or an exception that came out of \<^verbatim>\<open>generate_docstrings\<close>.
\<close>

record CodeRequest =
  source_code :: string
  filename :: string

record CodeResponse =
  documented_code :: string
  message :: string

datatype handler_exn = HTTPException nat string | Propagated py_exn

definition generate ::
    "(pyval \<Rightarrow> string) \<Rightarrow> (string \<Rightarrow> py_exn option) \<Rightarrow> (string \<Rightarrow> 'w \<Rightarrow> (py_exn + pyval) \<times> 'w)
     \<Rightarrow> CodeRequest \<Rightarrow> 'w \<Rightarrow> (handler_exn + CodeResponse) \<times> 'w" where
  "generate repr ast_parse chain_invoke request world =
     (if length (source_code request) > 100000 then
        (Inl (HTTPException 413 ''Payload too large. Please process smaller files.''), world)
      else
        (case generate_docstrings repr ast_parse chain_invoke (source_code request) world of
           (Inl e, world') \<Rightarrow> (Inl (Propagated e), world')
         | (Inr documented, world') \<Rightarrow>
             if contains documented ''Error:'' then
               (Inr \<lparr>documented_code = documented, message = ''Failed or empty input.''\<rparr>, world')
             else
               (Inr \<lparr>documented_code = documented,
                     message = ''Docstrings generated successfully!''\<rparr>, world')))"

section \<open>Lines and line feeds\<close>

lemma split_nl_nonempty: "split_nl s \<noteq> []"
  by (induction s) (auto simp: Let_def)

lemma split_nl_no_newline: "l \<in> set (split_nl s) \<Longrightarrow> NL \<notin> set l"
proof (induction s arbitrary: l)
  case Nil
  then show ?case by simp
next
  case (Cons c cs)
  obtain h t where ht: "split_nl cs = h # t"
    using split_nl_nonempty [of cs] by (cases "split_nl cs") auto
  show ?case
  proof (cases "c = NL")
    case True
    with Cons show ?thesis by (auto simp: Let_def)
  next
    case False
    with Cons.prems ht have "l = c # h \<or> l \<in> set t" by (auto simp: Let_def)
    then show ?thesis
    proof
      assume "l = c # h"
      moreover have "NL \<notin> set h" using Cons.IH [of h] ht by simp
      ultimately show ?thesis using False by auto
    next
      assume "l \<in> set t"
      then show ?thesis using Cons.IH [of l] ht by simp
    qed
  qed
qed

lemma split_nl_append_line:
  "NL \<notin> set l \<Longrightarrow> split_nl (l @ NL # s) = l # split_nl s"
  by (induction l) (auto simp: Let_def)

lemma split_nl_single: "NL \<notin> set l \<Longrightarrow> split_nl l = [l]"
  by (induction l) (auto simp: Let_def)

lemma split_join_nl:
  "ls \<noteq> [] \<Longrightarrow> (\<And>l. l \<in> set ls \<Longrightarrow> NL \<notin> set l) \<Longrightarrow> split_nl (join_nl ls) = ls"
proof (induction ls rule: join_nl.induct)
  case 1
  then show ?case by simp
next
  case (2 l)
  then show ?case by (simp add: split_nl_single)
next
  case (3 l v va)
  then show ?case by (simp add: split_nl_append_line)
qed

section \<open>What one turn of the loop does to a line\<close>

lemma isspace_space: "isspace CHR 0x20"
  by (simp add: isspace_def)

lemma lstrip_spaces: "lstrip (spaces n @ s) = lstrip s"
  by (induction n) (simp_all add: lstrip_def spaces_def isspace_space)

lemma lstrip_idem: "lstrip (lstrip s) = lstrip s"
  by (simp add: lstrip_def)

lemma lstrip_subset: "set (lstrip s) \<subseteq> set s"
  unfolding lstrip_def by (rule set_dropWhileD [THEN subsetI])

lemma fix_line_lstrip: "lstrip (fst (fix_line st line)) = lstrip line"
  by (simp add: fix_line_def Let_def lstrip_spaces lstrip_idem)

lemma spaces_no_newline: "NL \<notin> set (spaces n)"
  by (simp add: spaces_def)

lemma fix_line_no_newline:
  assumes "NL \<notin> set line"
  shows "NL \<notin> set (fst (fix_line st line))"
proof -
  have "NL \<notin> set (lstrip line)"
    using assms lstrip_subset [of line] by blast
  then show ?thesis
    using assms by (simp add: fix_line_def Let_def spaces_no_newline)
qed

lemma fix_loop_length: "length (fst (fix_loop st ls)) = length ls"
  by (induction ls arbitrary: st) (simp_all add: Let_def)

lemma fix_loop_lstrip: "map lstrip (fst (fix_loop st ls)) = map lstrip ls"
  by (induction ls arbitrary: st) (simp_all add: Let_def fix_line_lstrip)

lemma fix_loop_no_newline:
  "(\<And>l. l \<in> set ls \<Longrightarrow> NL \<notin> set l) \<Longrightarrow> l' \<in> set (fst (fix_loop st ls)) \<Longrightarrow> NL \<notin> set l'"
proof (induction ls arbitrary: st)
  case Nil
  then show ?case by simp
next
  case (Cons a ls)
  from Cons.prems(2) have "l' = fst (fix_line st a) \<or> l' \<in> set (fst (fix_loop (snd (fix_line st a)) ls))"
    by (simp add: Let_def)
  then show ?case
  proof
    assume "l' = fst (fix_line st a)"
    then show ?thesis using fix_line_no_newline [of a st] Cons.prems(1) [of a] by simp
  next
    assume "l' \<in> set (fst (fix_loop (snd (fix_line st a)) ls))"
    then show ?thesis using Cons.IH [of "snd (fix_line st a)"] Cons.prems(1) by simp
  qed
qed

lemma split_fix_docstring_indentation:
  "split_nl (fix_docstring_indentation code) = fst (fix_loop (False, 0) (split_nl code))"
proof -
  let ?out = "fst (fix_loop (False, 0) (split_nl code))"
  have "length ?out = length (split_nl code)" by (rule fix_loop_length)
  then have ne: "?out \<noteq> []" using split_nl_nonempty [of code] by auto
  have "\<And>l. l \<in> set ?out \<Longrightarrow> NL \<notin> set l"
    using fix_loop_no_newline [of "split_nl code" _ "(False, 0)"] split_nl_no_newline by blast
  with ne show ?thesis
    unfolding fix_docstring_indentation_def by (rule split_join_nl)
qed

section \<open>Claims about the indentation fixer\<close>

text \<open>
  C9. For every input string, \<^verbatim>\<open>fix_docstring_indentation\<close> returns a string with exactly
  as many newline-separated lines as its input, and line by line the output differs from
  the input in leading whitespace only: no line is inserted, deleted, merged or moved.
\<close>

theorem fix_docstring_indentation_keeps_lines:
  "length (split_nl (fix_docstring_indentation code)) = length (split_nl code)
   \<and> map lstrip (split_nl (fix_docstring_indentation code)) = map lstrip (split_nl code)"
  by (simp add: split_fix_docstring_indentation fix_loop_length fix_loop_lstrip)


lemma fix_line_exit:
  "snd (fix_line (True, ind) line) =
     (if contains line triple_quote \<and> endswith (strip line) triple_quote
         \<and> \<not> startswith (strip line) triple_quote
      then (False, 0) else (True, ind))"
  by (simp add: fix_line_def Let_def)

lemma fix_line_stays_in_docstring:
  "startswith (strip line) triple_quote \<Longrightarrow> snd (fix_line (True, ind) line) = (True, ind)"
  by (simp add: fix_line_exit)

text \<open>
  C2. The claim: the in-docstring state is exited on any line carrying a closing
  triple-quote delimiter that is not on the same line as an opening one; in particular a
  line consisting solely of the closing delimiter ends the block. The code leaves the
  state only on a line that ends with the delimiter and does not start with it, so a
  line holding the delimiter alone keeps \<^verbatim>\<open>in_docstring\<close> set (first conjunct, block at
  indent 4), and the statement after the block is re-indented like a description line
  (second conjunct: \<^verbatim>\<open>return x\<close> moves from indent 4 to indent 12).
\<close>

theorem closing_delimiter_alone_keeps_docstring_state:
  \<open>fix_line (True, 4) ''    """'' = (''    """'', (True, 4))
   \<and> fix_docstring_indentation
        ''def f(x):\<newline>    """Doc.\<newline>\<newline>    Args:\<newline>        x: value.\<newline>    """\<newline>    return x''
     = ''def f(x):\<newline>    """Doc.\<newline>\<newline>        Args:\<newline>            x: value.\<newline>    """\<newline>            return x''\<close>
  by code_simp




section \<open>Claims about the response extractor\<close>

lemma join_items_strings: "join_items i (map PyStr ss) = Inr (concat ss)"
  by (induction ss arbitrary: i) simp_all

lemma extract_text_of_str: "extract_text_from_response repr (PyStr s) = Inr (PyStr s)"
  by simp

lemma extract_text_of_message:
  "extract_text_from_response repr (PyObject t s (Some (PyStr text))) = Inr (PyStr text)"
  by simp

lemma extract_text_of_strings:
  "extract_text_from_response repr (PyList (map PyStr ss)) = Inr (PyStr (concat ss))"
proof -
  have "item_text repr \<circ> PyStr = PyStr"
    by (rule ext) simp
  then show ?thesis
    by (simp add: join_items_strings)
qed

text \<open>
  C3. The claim: \<^verbatim>\<open>extract_text_from_response\<close> never fails and always returns a string.
  The value found under \<^verbatim>\<open>'text'\<close> or \<^verbatim>\<open>'content'\<close> of a mapping is passed on as it is. For
  the sequence \<^verbatim>\<open>[{'content': ['a', 'b']}]\<close> the list under \<^verbatim>\<open>'content'\<close> reaches
  \<^verbatim>\<open>''.join\<close>, which raises \<^verbatim>\<open>TypeError\<close> (first conjunct); for the mapping \<^verbatim>\<open>{'text': 5}\<close>
  the function returns the number, not a string (second conjunct).
\<close>

theorem extract_text_raises_on_nested_item:
  "extract_text_from_response repr
     (PyList [PyDict [(''content'', PyList [PyStr ''a'', PyStr ''b''])]])
   = Inl (PyExn ''TypeError'' ''sequence item 0: expected str instance, list found'')
   \<and> extract_text_from_response repr (PyDict [(''text'', PyObject ''int'' ''5'' None)])
   = Inr (PyObject ''int'' ''5'' None)"
  by code_simp

text \<open>
  C4. The claim: for every response shape the function unwraps nested \<^verbatim>\<open>'content'\<close>
  fields recursively, concatenates the elements of a sequence in order and returns the
  concatenated string. A mapping on its own is unwrapped: \<^verbatim>\<open>{'content': {'content': 'hi'}}\<close>
  gives \<^verbatim>\<open>'hi'\<close> (first conjunct). The same mapping as an element of a sequence is not:
  in \<^verbatim>\<open>['a', {'content': {'content': 'hi'}}]\<close> the inner mapping is appended as it is and
  \<^verbatim>\<open>''.join\<close> raises \<^verbatim>\<open>TypeError\<close> (second conjunct), where the claim gives \<^verbatim>\<open>'ahi'\<close>.
\<close>

theorem extract_text_keeps_nested_content_in_sequence:
  "extract_text_from_response repr (PyDict [(''content'', PyDict [(''content'', PyStr ''hi'')])])
   = Inr (PyStr ''hi'')
   \<and> extract_text_from_response repr
       (PyList [PyStr ''a'', PyDict [(''content'', PyDict [(''content'', PyStr ''hi'')])]])
   = Inl (PyExn ''TypeError'' ''sequence item 1: expected str instance, dict found'')"
  by code_simp

section \<open>What the pattern searches find\<close>

text \<open>
  The searches of \<open>restore_body\<close> against the patterns they implement: \<open>find_sub\<close>
  finds the first occurrence, \<open>docstring_match\<close> finds nothing exactly when the text
  has no two triple quotes one after the other, and \<open>signature_match\<close> finds nothing
  exactly when no part of the text has the shape of the signature pattern.
\<close>

lemma find_sub_Some: "find_sub x s = Some (b, a) \<Longrightarrow> s = b @ x @ a"
proof (induction s arbitrary: b)
  case Nil
  then show ?case by (simp split: if_splits)
next
  case (Cons c cs)
  show ?case
  proof (cases "prefix x (c # cs)")
    case True
    with Cons.prems have "b = []" "a = drop (length x) (c # cs)" by simp_all
    moreover from True have "c # cs = x @ drop (length x) (c # cs)"
      by (metis append_eq_conv_conj prefix_def)
    ultimately show ?thesis by simp
  next
    case False
    with Cons.prems obtain b' where "find_sub x cs = Some (b', a)" "b = c # b'"
      by (auto split: option.splits)
    with Cons.IH show ?thesis by simp
  qed
qed

lemma find_sub_None: "find_sub x s = None \<longleftrightarrow> \<not> sublist x s"
  by (induction s) (auto simp: sublist_Cons_right split: option.splits)

lemma find_sub_first:
  "find_sub x s = Some (b, a) \<Longrightarrow> s = p @ x @ r \<Longrightarrow> length b \<le> length p"
proof (induction s arbitrary: b p)
  case Nil
  then show ?case by (simp split: if_splits)
next
  case (Cons c cs)
  show ?case
  proof (cases "prefix x (c # cs)")
    case True
    with Cons.prems(1) have "b = []" by simp
    then show ?thesis by simp
  next
    case False
    with Cons.prems(1) obtain b' where b': "find_sub x cs = Some (b', a)" "b = c # b'"
      by (auto split: option.splits)
    from False Cons.prems(2) have "p \<noteq> []"
      by (cases p) auto
    then obtain p' where p': "p = c # p'" "cs = p' @ x @ r"
      using Cons.prems(2) by (cases p) auto
    from Cons.IH [OF b'(1) p'(2)] b'(2) p'(1) show ?thesis by simp
  qed
qed

lemma docstring_match_Some:
  assumes "docstring_match s = Some m"
  shows "\<exists>b inner rest. m = triple_quote @ inner @ triple_quote \<and> s = b @ m @ rest"
proof -
  from assms obtain b after inner rest where
    first: "find_sub triple_quote s = Some (b, after)"
    and second: "find_sub triple_quote after = Some (inner, rest)"
    and m: "m = triple_quote @ inner @ triple_quote"
    by (auto simp: docstring_match_def split: option.splits)
  from find_sub_Some [OF first] find_sub_Some [OF second]
  have "s = b @ (triple_quote @ inner @ triple_quote) @ rest"
    by simp
  with m show ?thesis by blast
qed

lemma docstring_match_None:
  "docstring_match s = None
     \<longleftrightarrow> \<not> (\<exists>a inner c. s = a @ triple_quote @ inner @ triple_quote @ c)"
proof
  assume none: "docstring_match s = None"
  show "\<not> (\<exists>a inner c. s = a @ triple_quote @ inner @ triple_quote @ c)"
  proof
    assume "\<exists>a inner c. s = a @ triple_quote @ inner @ triple_quote @ c"
    then obtain a inner c where s: "s = a @ triple_quote @ inner @ triple_quote @ c"
      by blast
    then have "sublist triple_quote s" by (metis sublist_appendI)
    then obtain b after where first: "find_sub triple_quote s = Some (b, after)"
      using find_sub_None [of triple_quote s] by (cases "find_sub triple_quote s") auto
    have le: "length b \<le> length a"
      using first s by (rule find_sub_first)
    have sb: "s = b @ triple_quote @ after"
      using first by (rule find_sub_Some)
    let ?n = "length b + length triple_quote"
    have "after = drop ?n s"
      by (subst sb) simp
    also have "s = (a @ triple_quote) @ inner @ triple_quote @ c"
      using s by simp
    also have "drop ?n \<dots> = drop ?n (a @ triple_quote) @ inner @ triple_quote @ c"
      using le by simp
    finally have "sublist triple_quote after"
      by (metis append.assoc sublist_appendI)
    then have "find_sub triple_quote after \<noteq> None"
      by (simp add: find_sub_None)
    with first none show False
      by (auto simp: docstring_match_def split: option.splits)
  qed
next
  assume no: "\<not> (\<exists>a inner c. s = a @ triple_quote @ inner @ triple_quote @ c)"
  show "docstring_match s = None"
  proof (cases "docstring_match s")
    case None
    then show ?thesis .
  next
    case (Some m)
    from docstring_match_Some [OF Some] obtain b inner rest
      where "s = b @ triple_quote @ inner @ triple_quote @ rest"
      by auto
    with no show ?thesis by blast
  qed
qed

lemma prefix_split: "prefix p s \<Longrightarrow> s = p @ drop (length p) s"
  by (metis append_eq_conv_conj prefix_def)

lemma signature_at_Some:
  assumes "signature_at s = Some m"
  shows "prefix m s \<and> signature_shape m"
proof -
  let ?name = "takeWhile is_word (drop 4 s)"
  let ?after_name = "dropWhile is_word (drop 4 s)"
  let ?params = "takeWhile (\<lambda>c. c \<noteq> CHR '')'') (drop 1 ?after_name)"
  let ?after_params = "dropWhile (\<lambda>c. c \<noteq> CHR '')'') (drop 1 ?after_name)"
  from assms have d: "prefix ''def '' s" and n: "?name \<noteq> []" and o: "prefix ''('' ?after_name"
    and c: "prefix ''):'' ?after_params" and m: "m = ''def '' @ ?name @ ''('' @ ?params @ ''):''"
    by (auto simp: signature_at_def Let_def split: if_splits)
  from d obtain r1 where r1: "s = ''def '' @ r1"
    by (auto simp: prefix_def)
  from o obtain r2 where r2: "?after_name = ''('' @ r2"
    by (auto simp: prefix_def)
  from c obtain r3 where r3: "?after_params = ''):'' @ r3"
    by (auto simp: prefix_def)
  have d4: "drop 4 s = r1"
    by (simp add: r1)
  have "s = ''def '' @ drop 4 s"
    unfolding d4 by (rule r1)
  also have "drop 4 s = ?name @ ?after_name" by simp
  also have "?after_name = ''('' @ drop 1 ?after_name"
  proof -
    have "drop 1 ?after_name = r2"
      by (simp add: r2)
    then show ?thesis
      by (simp only: r2 [symmetric])
  qed
  also have "drop 1 ?after_name = ?params @ ?after_params" by simp
  also have "?after_params = ''):'' @ r3" by (rule r3)
  finally have "s = m @ r3"
    by (simp add: m)
  then have "prefix m s" by (metis prefixI)
  moreover have "\<forall>c \<in> set ?name. is_word c"
    by (auto dest: set_takeWhileD)
  moreover have "CHR '')'' \<notin> set ?params"
    by (auto dest: set_takeWhileD)
  ultimately show ?thesis
    using n m unfolding signature_shape_def by blast
qed

lemma not_word_paren: "\<not> is_word CHR ''(''"
  by (simp add: is_word_def)

lemma signature_at_complete:
  assumes "signature_shape m" and "prefix m s"
  shows "signature_at s = Some m"
proof -
  from assms(1) obtain name params where m: "m = ''def '' @ name @ ''('' @ params @ ''):''"
    and n: "name \<noteq> []" and w: "\<forall>c \<in> set name. is_word c" and p: "CHR '')'' \<notin> set params"
    unfolding signature_shape_def by blast
  from assms(2) obtain rest where s: "s = m @ rest"
    by (auto simp: prefix_def)
  have d4: "drop 4 s = name @ CHR ''('' # params @ ''):'' @ rest"
    by (simp add: s m)
  have tn: "takeWhile is_word (drop 4 s) = name"
    unfolding d4 using w not_word_paren by (simp add: takeWhile_tail)
  have dn: "dropWhile is_word (drop 4 s) = CHR ''('' # params @ ''):'' @ rest"
    unfolding d4 using w not_word_paren by (simp add: dropWhile_append3)
  have tp: "takeWhile (\<lambda>c. c \<noteq> CHR '')'') (params @ CHR '')'' # CHR '':'' # rest) = params"
    using p by (auto simp: takeWhile_tail)
  have dp: "dropWhile (\<lambda>c. c \<noteq> CHR '')'') (params @ CHR '')'' # CHR '':'' # rest)
      = CHR '')'' # CHR '':'' # rest"
    using p by (auto simp: dropWhile_append3)
  have "prefix ''def '' s" by (simp add: s m)
  then show ?thesis
    using n by (simp add: signature_at_def Let_def tn dn tp dp m)
qed

lemma signature_match_Some:
  "signature_match s = Some m \<Longrightarrow> contains s m \<and> signature_shape m"
proof (induction s)
  case Nil
  then show ?case by (simp add: signature_at_def)
next
  case (Cons c cs)
  show ?case
  proof (cases "signature_at (c # cs)")
    case None
    with Cons have "contains cs m \<and> signature_shape m" by simp
    then show ?thesis by (auto simp: sublist_Cons_right)
  next
    case (Some m')
    with Cons.prems have "m' = m" by simp
    with Some signature_at_Some [of "c # cs" m] show ?thesis by auto
  qed
qed

lemma signature_match_None:
  "signature_match s = None \<longleftrightarrow> \<not> (\<exists>m. contains s m \<and> signature_shape m)"
proof
  assume "signature_match s = None"
  then show "\<not> (\<exists>m. contains s m \<and> signature_shape m)"
  proof (induction s)
    case Nil
    show ?case
    proof
      assume "\<exists>m. contains [] m \<and> signature_shape m"
      then obtain m where "m = []" "signature_shape m" by auto
      then show False by (simp add: signature_shape_def)
    qed
  next
    case (Cons c cs)
    from Cons.prems have at: "signature_at (c # cs) = None" and rest: "signature_match cs = None"
      by (auto split: option.splits)
    show ?case
    proof
      assume "\<exists>m. contains (c # cs) m \<and> signature_shape m"
      then obtain m where "contains (c # cs) m" "signature_shape m" by blast
      then have "prefix m (c # cs) \<or> contains cs m"
        by (simp add: sublist_Cons_right)
      then show False
      proof
        assume "prefix m (c # cs)"
        with \<open>signature_shape m\<close> have "signature_at (c # cs) = Some m"
          by (rule signature_at_complete)
        with at show False by simp
      next
        assume "contains cs m"
        with Cons.IH [OF rest] \<open>signature_shape m\<close> show False by blast
      qed
    qed
  qed
next
  assume no: "\<not> (\<exists>m. contains s m \<and> signature_shape m)"
  show "signature_match s = None"
  proof (cases "signature_match s")
    case None
    then show ?thesis .
  next
    case (Some m)
    from signature_match_Some [OF Some] no show ?thesis by blast
  qed
qed

section \<open>Substrings, joining and trimming\<close>

lemma sublist_strip: "contains s (strip s)"
proof -
  have "suffix (dropWhile isspace (rev (lstrip s))) (rev (lstrip s))"
    by (rule suffix_dropWhile)
  then have "prefix (rstrip (lstrip s)) (lstrip s)"
    by (simp add: rstrip_def suffix_to_prefix)
  moreover have "suffix (lstrip s) s"
    unfolding lstrip_def by (rule suffix_dropWhile)
  ultimately show ?thesis
    unfolding strip_def
    by (meson prefix_imp_sublist suffix_imp_sublist sublist_order.order.trans)
qed

lemma sublist_across_separator:
  assumes "sublist m (a @ c # b)" and "c \<notin> set m"
  shows "sublist m a \<or> sublist m b"
proof -
  from assms(1) consider "sublist m a" | "sublist m (c # b)"
    | xs1 xs2 where "m = xs1 @ xs2" "suffix xs1 a" "prefix xs2 (c # b)"
    by (auto simp: sublist_append)
  then show ?thesis
  proof cases
    case 1
    then show ?thesis by simp
  next
    case 2
    then have "prefix m (c # b) \<or> sublist m b"
      by (simp add: sublist_Cons_right)
    then show ?thesis
    proof
      assume "prefix m (c # b)"
      with assms(2) have "m = []"
        by (cases m) auto
      then show ?thesis by simp
    qed simp
  next
    case 3
    from 3(3) assms(2) 3(1) have "xs2 = []"
      by (cases xs2) auto
    with 3 show ?thesis by auto
  qed
qed

lemma sublist_join_nl:
  assumes "sublist m (join_nl ls)" and "NL \<notin> set m" and "m \<noteq> []"
  shows "\<exists>l \<in> set ls. sublist m l"
  using assms
proof (induction ls rule: join_nl.induct)
  case 1
  then show ?case by simp
next
  case (2 l)
  then show ?case by simp
next
  case (3 l v va)
  from "3.prems"(1) have "sublist m (l @ NL # join_nl (v # va))"
    by simp
  from this "3.prems"(2) have "sublist m l \<or> sublist m (join_nl (v # va))"
    by (rule sublist_across_separator)
  with 3 show ?case by auto
qed

lemma line_in_join_nl: "l \<in> set ls \<Longrightarrow> sublist l (join_nl ls)"
proof (induction ls rule: join_nl.induct)
  case 1
  then show ?case by simp
next
  case (2 l')
  then show ?case by simp
next
  case (3 l' v va)
  show ?case
  proof (cases "l = l'")
    case True
    then show ?thesis by simp
  next
    case False
    with 3 have "sublist l (join_nl (v # va))" by simp
    then have "sublist l ((l' @ [NL]) @ join_nl (v # va))"
      by (meson sublist_append)
    then show ?thesis by simp
  qed
qed

lemma sublist_dropWhile_keeps:
  assumes "sublist x s" and "x \<noteq> []" and "\<not> P (hd x)"
  shows "sublist x (dropWhile P s)"
proof -
  from assms(1) obtain a b where s: "s = a @ x @ b"
    by (auto simp: sublist_def)
  show ?thesis
  proof (cases "\<forall>c \<in> set a. P c")
    case True
    moreover have "dropWhile P (x @ b) = x @ b"
      using assms(2,3) by (cases x) auto
    ultimately show ?thesis
      by (simp add: s)
  next
    case False
    then obtain c where "c \<in> set a" "\<not> P c" by blast
    then have "dropWhile P s = dropWhile P a @ x @ b"
      by (simp add: s)
    then show ?thesis by simp
  qed
qed

lemma sublist_strip_keeps:
  assumes "sublist x s" and "x \<noteq> []" and "\<not> isspace (hd x)" and "\<not> isspace (last x)"
  shows "sublist x (strip s)"
proof -
  from assms(1-3) have left: "sublist x (lstrip s)"
    unfolding lstrip_def by (rule sublist_dropWhile_keeps)
  then have "sublist (rev x) (rev (lstrip s))" by simp
  moreover have "rev x \<noteq> []" using assms(2) by simp
  moreover have "\<not> isspace (hd (rev x))" using assms(2,4) by (simp add: hd_rev)
  ultimately have "sublist (rev x) (dropWhile isspace (rev (lstrip s)))"
    by (rule sublist_dropWhile_keeps)
  then show ?thesis
    by (simp add: strip_def rstrip_def sublist_rev_left)
qed

lemma strip_ends:
  assumes "strip l \<noteq> []"
  shows "\<not> isspace (hd (strip l)) \<and> \<not> isspace (last (strip l))"
proof -
  let ?t = "lstrip l"
  have pre: "prefix (strip l) ?t"
    using suffix_dropWhile [of isspace "rev ?t"]
    by (simp add: strip_def rstrip_def suffix_to_prefix)
  with assms have "hd (strip l) = hd ?t"
    by (auto simp: prefix_def)
  moreover from pre assms have "?t \<noteq> []" by auto
  then have "\<not> isspace (hd ?t)"
    unfolding lstrip_def by (rule hd_dropWhile)
  moreover have "dropWhile isspace (rev ?t) \<noteq> []"
    using assms by (simp add: strip_def rstrip_def)
  then have "\<not> isspace (hd (dropWhile isspace (rev ?t)))"
    by (rule hd_dropWhile)
  then have "\<not> isspace (last (strip l))"
    using assms by (simp add: strip_def rstrip_def last_rev)
  ultimately show ?thesis by simp
qed

lemma stripped_line_kept:
  assumes "l \<in> set ls"
  shows "contains (strip (join_nl ls)) (strip l)"
proof (cases "strip l = []")
  case True
  then show ?thesis by simp
next
  case False
  have "sublist (strip l) l" by (rule sublist_strip)
  moreover have "sublist l (join_nl ls)" using assms by (rule line_in_join_nl)
  ultimately have "sublist (strip l) (join_nl ls)"
    by (rule sublist_order.order.trans)
  with False strip_ends [OF False] show ?thesis
    by (intro sublist_strip_keeps) simp_all
qed

lemma todo_marker_no_newline: "NL \<notin> set todo_marker \<and> todo_marker \<noteq> []"
  by (simp add: todo_marker_def)

lemma marker_free_join:
  assumes "\<forall>l \<in> set ls. \<not> contains l todo_marker"
  shows "\<not> contains (strip (join_nl ls)) todo_marker"
proof
  assume "contains (strip (join_nl ls)) todo_marker"
  then have "contains (join_nl ls) todo_marker"
    using sublist_strip [of "join_nl ls"] by (rule sublist_order.order.trans)
  then have "\<exists>l \<in> set ls. contains l todo_marker"
    using todo_marker_no_newline by (intro sublist_join_nl) simp_all
  with assms show False by blast
qed

section \<open>Claims about the post-processor\<close>

lemma clean_output_falls_through:
  assumes "is_valid_python ast_parse original_code = Inr valid"
    and "restore_body (cleaned_text valid generated) original_code = None"
  shows "clean_output ast_parse generated original_code = Inr (cleaned_text valid generated)"
  using assms by (simp add: clean_output_def)

text \<open>
  C1, as stated: \<^verbatim>\<open>clean_output\<close> removes exactly the lines containing the marker when the
  original is valid, and leaves marker lines untouched when it is not. Two inputs
  where it does otherwise. With a valid original (the parser accepts it) and the lines
  \<^verbatim>\<open>x = 1\<close>, an empty line and the marker line, the result is \<^verbatim>\<open>x = 1\<close> alone: the final
  \<^verbatim>\<open>strip()\<close> takes the empty line too. With an invalid original (the parser raises
  \<^verbatim>\<open>SyntaxError\<close>) and a generated text with one \<^verbatim>\<open>def\<close> and no \<^verbatim>\<open>return\<close>, the recovery
  step rebuilds the text from the signature, the docstring and the original body, and
  the marker line is gone.
\<close>

theorem clean_output_marker_counterexample:
  \<open>clean_output (\<lambda>code. None) ''x = 1\<newline>\<newline># TODO: Fix syntax error'' ''x = 1'' = Inr ''x = 1''
   \<and> clean_output (\<lambda>code. Some (PyExn ''SyntaxError'' ''invalid syntax''))
        ''def f(x):\<newline>    # TODO: Fix syntax error\<newline>    """Doc."""\<newline>    x = = 1''
        ''def f(x):\<newline>    x = = 1''
     = Inr ''def f(x):\<newline>    """Doc."""\<newline>    x = = 1''\<close>
  by code_simp

text \<open>
  C1, amended. Let \<^verbatim>\<open>is_valid_python(original_code)\<close> return \<open>valid\<close>, and let the
  recovery step not rewrite the text (\<open>restore_body\<close> falls through). Then
  \<^verbatim>\<open>clean_output\<close> returns the lines of the generated text, as \<^verbatim>\<open>splitlines()\<close> gives
  them, joined by line feeds and trimmed of whitespace at both ends of the text, where
  the lines containing the marker are left out if the original is valid and no line is
  left out if it is not. So with a valid original the result does not contain the
  marker; and every line that is not a marker line of a valid original is still in the
  result, up to the whitespace at its ends.
\<close>

theorem clean_output_marker_lines:
  assumes "is_valid_python ast_parse original_code = Inr valid"
    and "restore_body (cleaned_text valid generated) original_code = None"
  shows "\<exists>result.
           clean_output ast_parse generated original_code = Inr result
           \<and> result = strip (join_nl (if valid
                 then filter (\<lambda>line. \<not> contains line todo_marker) (splitlines generated)
                 else splitlines generated))
           \<and> (valid \<longrightarrow> \<not> contains result todo_marker)
           \<and> (\<forall>line \<in> set (splitlines generated).
                 (valid \<and> contains line todo_marker) \<or> contains result (strip line))"
proof -
  let ?result = "cleaned_text valid generated"
  have returned: "clean_output ast_parse generated original_code = Inr ?result"
    using assms by (rule clean_output_falls_through)
  have shape: "?result = strip (join_nl (if valid
                 then filter (\<lambda>line. \<not> contains line todo_marker) (splitlines generated)
                 else splitlines generated))"
    by (simp add: cleaned_text_def kept_lines_def)
  have no_marker: "\<not> contains ?result todo_marker" if valid
  proof -
    have "\<forall>l \<in> set (kept_lines valid generated). \<not> contains l todo_marker"
      using that by (simp add: kept_lines_def)
    then show ?thesis
      unfolding cleaned_text_def by (rule marker_free_join)
  qed
  have kept: "(valid \<and> contains line todo_marker) \<or> contains ?result (strip line)"
    if "line \<in> set (splitlines generated)" for line
  proof (cases "valid \<and> contains line todo_marker")
    case True
    then show ?thesis by simp
  next
    case False
    with that have "line \<in> set (kept_lines valid generated)"
      by (auto simp: kept_lines_def)
    then have "contains ?result (strip line)"
      unfolding cleaned_text_def by (rule stripped_line_kept)
    then show ?thesis by simp
  qed
  from returned shape no_marker kept show ?thesis
    by blast
qed

text \<open>
  C6, as stated: the recovery step runs only when the cleaned text contains exactly one
  function definition and no return statement. The source tests substrings:
  \<^verbatim>\<open>cleaned.count('def ') == 1\<close> and \<^verbatim>\<open>'return' not in cleaned\<close>. The first text below
  defines two functions, the second with a tab after \<^verbatim>\<open>def\<close>, so \<^verbatim>\<open>def\<close> and a space
  occurs once: the recovery step runs and the second function is gone from the result.
  The second text defines no function and mentions \<^verbatim>\<open>def f(x):\<close> in its docstring: the
  recovery step runs and puts that mention in front as a signature. The parser accepts
  both originals.
\<close>

theorem recovery_counts_substrings_counterexample:
  \<open>count_sub ''def ''
      (cleaned_text True
         (''def f(x):\<newline>    """Doc."""\<newline>    pass\<newline>def'' @ [CHR 0x09] @ ''g():\<newline>    pass'')) = 1
   \<and> restore_body
        (cleaned_text True
           (''def f(x):\<newline>    """Doc."""\<newline>    pass\<newline>def'' @ [CHR 0x09] @ ''g():\<newline>    pass''))
        ''def f(x):\<newline>    pass''
     = Some ''def f(x):\<newline>    """Doc."""\<newline>    pass''
   \<and> clean_output (\<lambda>code. None)
        (''def f(x):\<newline>    """Doc."""\<newline>    pass\<newline>def'' @ [CHR 0x09] @ ''g():\<newline>    pass'')
        ''def f(x):\<newline>    pass''
     = Inr ''def f(x):\<newline>    """Doc."""\<newline>    pass''
   \<and> restore_body (cleaned_text True ''"""Use def f(x): to start."""\<newline>x = 1'') ''x = 1''
     = Some ''def f(x):\<newline>    """Use def f(x): to start."""\<newline>x = 1''
   \<and> clean_output (\<lambda>code. None) ''"""Use def f(x): to start."""\<newline>x = 1'' ''x = 1''
     = Inr ''def f(x):\<newline>    """Use def f(x): to start."""\<newline>x = 1''\<close>
  by code_simp

text \<open>
  C6, amended. Let \<^verbatim>\<open>is_valid_python(original_code)\<close> return \<open>valid\<close>, and let \<open>cleaned_text
  valid generated\<close> be the marker-cleaned, trimmed text. The recovery step runs only when
  that text contains the substring made of \<^verbatim>\<open>def\<close> and a space exactly once (as
  \<^verbatim>\<open>str.count\<close> counts) and does not contain the substring \<^verbatim>\<open>return\<close>; and if either of
  these tests fails, or the documentation-block pattern finds nothing in the text, or
  the signature pattern finds nothing in it, then \<^verbatim>\<open>clean_output\<close> returns the text
  unchanged.
\<close>

theorem restore_body_guard:
  assumes "is_valid_python ast_parse original_code = Inr valid"
  shows "cleaned_text valid generated = strip (join_nl (kept_lines valid generated))
         \<and> (count_sub ''def '' (cleaned_text valid generated) \<noteq> 1
              \<or> contains (cleaned_text valid generated) ''return''
              \<or> docstring_match (cleaned_text valid generated) = None
              \<or> signature_match (cleaned_text valid generated) = None
            \<longrightarrow> clean_output ast_parse generated original_code = Inr (cleaned_text valid generated))"
proof -
  let ?cleaned = "cleaned_text valid generated"
  have shape: "?cleaned = strip (join_nl (kept_lines valid generated))"
    by (simp only: cleaned_text_def)
  have falls: "restore_body ?cleaned original_code = None"
    if "count_sub ''def '' ?cleaned \<noteq> 1 \<or> contains ?cleaned ''return''
        \<or> docstring_match ?cleaned = None \<or> signature_match ?cleaned = None"
  proof (cases "count_sub ''def '' ?cleaned = 1 \<and> \<not> contains ?cleaned ''return''")
    case False
    then show ?thesis
      by (simp only: restore_body_def if_False)
  next
    case True
    have pick: "c \<or> d" if "\<not> a \<or> b \<or> c \<or> d" and "a \<and> \<not> b" for a b c d :: bool
      using that by blast
    from that True have "docstring_match ?cleaned = None \<or> signature_match ?cleaned = None"
      by (rule pick)
    with True show ?thesis
      by (cases "docstring_match ?cleaned") (simp_all add: restore_body_def)
  qed
  have "clean_output ast_parse generated original_code = Inr ?cleaned"
    if "count_sub ''def '' ?cleaned \<noteq> 1 \<or> contains ?cleaned ''return''
        \<or> docstring_match ?cleaned = None \<or> signature_match ?cleaned = None"
    using assms falls [OF that] by (rule clean_output_falls_through)
  then have "count_sub ''def '' ?cleaned \<noteq> 1 \<or> contains ?cleaned ''return''
        \<or> docstring_match ?cleaned = None \<or> signature_match ?cleaned = None
      \<longrightarrow> clean_output ast_parse generated original_code = Inr ?cleaned"
    by (rule impI)
  with shape show ?thesis
    by (rule conjI)
qed

text \<open>
  The witness of C6, at generated texts that stop the recovery step at each of its four
  tests in turn: two \<^verbatim>\<open>def\<close>, a \<^verbatim>\<open>return\<close>, no documentation block, and no signature
  (the parenthesis of \<^verbatim>\<open>def f(:\<close> is never closed). The original is rejected by the
  parser in each case, so the marker line stays.
\<close>

theorem restore_body_guard_witness:
  \<open>clean_output (\<lambda>code. Some (PyExn ''SyntaxError'' ''invalid syntax''))
      ''def f(:\<newline>    pass\<newline>def g():\<newline>    pass'' ''def f(:\<newline>    pass''
     = Inr ''def f(:\<newline>    pass\<newline>def g():\<newline>    pass''
   \<and> clean_output (\<lambda>code. Some (PyExn ''SyntaxError'' ''invalid syntax''))
      ''def f(x:\<newline>    """Doc."""\<newline>    return x'' ''def f(x:\<newline>    return x''
     = Inr ''def f(x:\<newline>    """Doc."""\<newline>    return x''
   \<and> clean_output (\<lambda>code. Some (PyExn ''SyntaxError'' ''invalid syntax''))
      ''def f(x):\<newline>    # TODO: Fix syntax error\<newline>    x = = 1'' ''def f(x):\<newline>    x = = 1''
     = Inr ''def f(x):\<newline>    # TODO: Fix syntax error\<newline>    x = = 1''
   \<and> clean_output (\<lambda>code. Some (PyExn ''SyntaxError'' ''invalid syntax''))
      ''def f(:\<newline>    # TODO: Fix syntax error\<newline>    """Doc."""\<newline>    pass'' ''def f(:\<newline>    pass''
     = Inr ''def f(:\<newline>    # TODO: Fix syntax error\<newline>    """Doc."""\<newline>    pass''\<close>
proof -
  let ?parse = "\<lambda>code :: string. Some (PyExn ''SyntaxError'' ''invalid syntax'')"
  have invalid: "is_valid_python ?parse original_code = Inr False" for original_code
    by (simp add: is_valid_python_def is_syntax_error_def)
  have two_defs:
    \<open>cleaned_text False ''def f(:\<newline>    pass\<newline>def g():\<newline>    pass''
       = ''def f(:\<newline>    pass\<newline>def g():\<newline>    pass''
     \<and> count_sub ''def '' ''def f(:\<newline>    pass\<newline>def g():\<newline>    pass'' \<noteq> 1\<close>
    by code_simp
  have has_return:
    \<open>cleaned_text False ''def f(x:\<newline>    """Doc."""\<newline>    return x''
       = ''def f(x:\<newline>    """Doc."""\<newline>    return x''
     \<and> contains ''def f(x:\<newline>    """Doc."""\<newline>    return x'' ''return''\<close>
    by code_simp
  have no_docstring:
    \<open>cleaned_text False ''def f(x):\<newline>    # TODO: Fix syntax error\<newline>    x = = 1''
       = ''def f(x):\<newline>    # TODO: Fix syntax error\<newline>    x = = 1''
     \<and> docstring_match ''def f(x):\<newline>    # TODO: Fix syntax error\<newline>    x = = 1'' = None\<close>
    by code_simp
  have no_signature:
    \<open>cleaned_text False ''def f(:\<newline>    # TODO: Fix syntax error\<newline>    """Doc."""\<newline>    pass''
       = ''def f(:\<newline>    # TODO: Fix syntax error\<newline>    """Doc."""\<newline>    pass''
     \<and> signature_match ''def f(:\<newline>    # TODO: Fix syntax error\<newline>    """Doc."""\<newline>    pass'' = None\<close>
    by code_simp
  have w1: \<open>clean_output ?parse ''def f(:\<newline>    pass\<newline>def g():\<newline>    pass'' ''def f(:\<newline>    pass''
     = Inr ''def f(:\<newline>    pass\<newline>def g():\<newline>    pass''\<close>
    using restore_body_guard [OF invalid, where original_code = \<open>''def f(:\<newline>    pass''\<close>
        and generated = \<open>''def f(:\<newline>    pass\<newline>def g():\<newline>    pass''\<close>] two_defs
    by simp
  have w2: \<open>clean_output ?parse ''def f(x:\<newline>    """Doc."""\<newline>    return x'' ''def f(x:\<newline>    return x''
     = Inr ''def f(x:\<newline>    """Doc."""\<newline>    return x''\<close>
    using restore_body_guard [OF invalid, where original_code = \<open>''def f(x:\<newline>    return x''\<close>
        and generated = \<open>''def f(x:\<newline>    """Doc."""\<newline>    return x''\<close>] has_return
    by simp
  have w3: \<open>clean_output ?parse ''def f(x):\<newline>    # TODO: Fix syntax error\<newline>    x = = 1'' ''def f(x):\<newline>    x = = 1''
     = Inr ''def f(x):\<newline>    # TODO: Fix syntax error\<newline>    x = = 1''\<close>
    using restore_body_guard [OF invalid, where original_code = \<open>''def f(x):\<newline>    x = = 1''\<close>
        and generated = \<open>''def f(x):\<newline>    # TODO: Fix syntax error\<newline>    x = = 1''\<close>] no_docstring
    by simp
  have w4: \<open>clean_output ?parse ''def f(:\<newline>    # TODO: Fix syntax error\<newline>    """Doc."""\<newline>    pass'' ''def f(:\<newline>    pass''
     = Inr ''def f(:\<newline>    # TODO: Fix syntax error\<newline>    """Doc."""\<newline>    pass''\<close>
    using restore_body_guard [OF invalid, where original_code = \<open>''def f(:\<newline>    pass''\<close>
        and generated = \<open>''def f(:\<newline>    # TODO: Fix syntax error\<newline>    """Doc."""\<newline>    pass''\<close>] no_signature
    by simp
  from w1 w2 w3 w4 show ?thesis
    by (intro conjI)
qed

text \<open>
  The witness of C1: a valid original, where the marker line between two statements is
  dropped and nothing else, and an invalid original, where the marker line stays.
\<close>

theorem clean_output_marker_lines_witness:
  \<open>clean_output (\<lambda>code. None) ''x = 1\<newline># TODO: Fix syntax error\<newline>y = 2'' ''x = 1\<newline>y = 2''
     = Inr ''x = 1\<newline>y = 2''
   \<and> clean_output (\<lambda>code. Some (PyExn ''SyntaxError'' ''invalid syntax''))
       ''x = = 1\<newline># TODO: Fix syntax error'' ''x = = 1''
     = Inr ''x = = 1\<newline># TODO: Fix syntax error''\<close>
proof -
  let ?accept = "\<lambda>code :: string. None :: py_exn option"
  let ?reject = "\<lambda>code :: string. Some (PyExn ''SyntaxError'' ''invalid syntax'')"
  have valid: "is_valid_python ?accept original_code = Inr True" for original_code
    by (simp add: is_valid_python_def)
  have invalid: "is_valid_python ?reject original_code = Inr False" for original_code
    by (simp add: is_valid_python_def is_syntax_error_def)
  have falls1: \<open>restore_body (cleaned_text True ''x = 1\<newline># TODO: Fix syntax error\<newline>y = 2'')
      ''x = 1\<newline>y = 2'' = None\<close>
    by code_simp
  have falls2: \<open>restore_body (cleaned_text False ''x = = 1\<newline># TODO: Fix syntax error'')
      ''x = = 1'' = None\<close>
    by code_simp
  have value1: \<open>strip (join_nl (if True
      then filter (\<lambda>line. \<not> contains line todo_marker)
             (splitlines ''x = 1\<newline># TODO: Fix syntax error\<newline>y = 2'')
      else splitlines ''x = 1\<newline># TODO: Fix syntax error\<newline>y = 2''))
     = ''x = 1\<newline>y = 2''\<close>
    by code_simp
  have value2: \<open>strip (join_nl (if False
      then filter (\<lambda>line. \<not> contains line todo_marker)
             (splitlines ''x = = 1\<newline># TODO: Fix syntax error'')
      else splitlines ''x = = 1\<newline># TODO: Fix syntax error''))
     = ''x = = 1\<newline># TODO: Fix syntax error''\<close>
    by code_simp
  from clean_output_marker_lines [OF valid falls1] obtain r1 where
    \<open>clean_output ?accept ''x = 1\<newline># TODO: Fix syntax error\<newline>y = 2'' ''x = 1\<newline>y = 2'' = Inr r1\<close>
    and \<open>r1 = strip (join_nl (if True
      then filter (\<lambda>line. \<not> contains line todo_marker)
             (splitlines ''x = 1\<newline># TODO: Fix syntax error\<newline>y = 2'')
      else splitlines ''x = 1\<newline># TODO: Fix syntax error\<newline>y = 2''))\<close>
    by (elim exE conjE)
  with value1 have first:
    \<open>clean_output ?accept ''x = 1\<newline># TODO: Fix syntax error\<newline>y = 2'' ''x = 1\<newline>y = 2''
       = Inr ''x = 1\<newline>y = 2''\<close>
    by (simp only:)
  from clean_output_marker_lines [OF invalid falls2] obtain r2 where
    \<open>clean_output ?reject ''x = = 1\<newline># TODO: Fix syntax error'' ''x = = 1'' = Inr r2\<close>
    and \<open>r2 = strip (join_nl (if False
      then filter (\<lambda>line. \<not> contains line todo_marker)
             (splitlines ''x = = 1\<newline># TODO: Fix syntax error'')
      else splitlines ''x = = 1\<newline># TODO: Fix syntax error''))\<close>
    by (elim exE conjE)
  with value2 have second:
    \<open>clean_output ?reject ''x = = 1\<newline># TODO: Fix syntax error'' ''x = = 1''
       = Inr ''x = = 1\<newline># TODO: Fix syntax error''\<close>
    by (simp only:)
  from first second show ?thesis
    by (rule conjI)
qed

section \<open>Claims about the request handler\<close>

lemma strip_blank:
  assumes "\<forall>c \<in> set s. isspace c"
  shows "strip s = []"
proof -
  from assms have "lstrip s = []"
    by (simp add: lstrip_def)
  then show ?thesis
    by (simp add: strip_def rstrip_def)
qed

text \<open>
  C7. For every input that is the empty string or consists only of whitespace,
  \<^verbatim>\<open>generate_docstrings\<close> returns the fixed empty-input error string, and the state of
  the world outside is the one it started from, whatever the provider would do when
  called: the provider is not called.
\<close>

theorem generate_docstrings_blank_input:
  assumes "\<forall>c \<in> set src. isspace c"
  shows "generate_docstrings repr ast_parse chain_invoke src world
         = (Inr ''# Error: The provided source code is empty.'', world)"
proof -
  have "strip src = []"
    using assms by (simp add: strip_blank)
  then show ?thesis
    by (simp add: generate_docstrings_def empty_input_error_def)
qed

text \<open>
  The witness counts the calls: the world is the number of calls made so far, and the
  stub provider adds one. On the empty string and on three blanks the count stays 0.
\<close>

theorem generate_docstrings_blank_input_witness:
  "generate_docstrings (\<lambda>v. []) (\<lambda>code. None) (\<lambda>code n. (Inr (PyStr ''pass''), Suc n))
     ''   '' (0::nat)
     = (Inr ''# Error: The provided source code is empty.'', 0)
   \<and> generate_docstrings (\<lambda>v. []) (\<lambda>code. None) (\<lambda>code n. (Inr (PyStr ''pass''), Suc n))
     [] (0::nat)
     = (Inr ''# Error: The provided source code is empty.'', 0)"
proof -
  have blank: "\<forall>c \<in> set ''   ''. isspace c"
    by (simp add: isspace_def)
  have empty: "\<forall>c \<in> set ([] :: string). isspace c"
    by simp
  from generate_docstrings_blank_input [OF blank] generate_docstrings_blank_input [OF empty]
  show ?thesis by (rule conjI)
qed

text \<open>
  C8, as stated: any exception raised by the external call or by a post-processing step
  is caught and turned into the returned string, and none reaches the caller. The
  handler is \<^verbatim>\<open>except Exception\<close>: when the provider call is interrupted from the
  keyboard, \<^verbatim>\<open>KeyboardInterrupt\<close> is not an instance of \<^verbatim>\<open>Exception\<close> and
  \<^verbatim>\<open>generate_docstrings\<close> raises it to its caller.
\<close>

theorem provider_interrupt_counterexample:
  "generate_docstrings (\<lambda>v. []) (\<lambda>code. None)
     (\<lambda>code n. (Inl (PyBaseExn ''KeyboardInterrupt'' []), Suc n)) ''x = 1'' (0::nat)
   = (Inl (PyBaseExn ''KeyboardInterrupt'' []), 1)"
  by code_simp

text \<open>
  C8, amended. For an input that is not blank, so that the provider is called: an
  exception that is an instance of \<^verbatim>\<open>Exception\<close>, raised by the call or by a
  post-processing step on the response (the extraction of the text, \<^verbatim>\<open>strip()\<close>, the
  fence tests, \<^verbatim>\<open>clean_output\<close>), is turned into the returned string, which is the fixed
  error marker followed by the message of the exception, and so contains both. An
  exception that is not an instance of \<^verbatim>\<open>Exception\<close> is raised to the caller.
\<close>

theorem generate_docstrings_catches:
  assumes "strip src \<noteq> []"
  shows "(chain_invoke src world = (Inl e, world') \<and> is_exception e \<longrightarrow>
            generate_docstrings repr ast_parse chain_invoke src world
              = (Inr (''# Error generating docstrings: '' @ exn_message e), world'))
       \<and> (chain_invoke src world = (Inr response, world')
            \<and> post_process repr ast_parse response src = Inl e \<and> is_exception e \<longrightarrow>
            generate_docstrings repr ast_parse chain_invoke src world
              = (Inr (''# Error generating docstrings: '' @ exn_message e), world'))
       \<and> (is_exception e
            \<and> (chain_invoke src world = (Inl e, world')
               \<or> (chain_invoke src world = (Inr response, world')
                   \<and> post_process repr ast_parse response src = Inl e)) \<longrightarrow>
            (\<exists>result. fst (generate_docstrings repr ast_parse chain_invoke src world) = Inr result
               \<and> contains result ''# Error generating docstrings: ''
               \<and> contains result (exn_message e)))
       \<and> (\<not> is_exception e
            \<and> (chain_invoke src world = (Inl e, world')
               \<or> (chain_invoke src world = (Inr response, world')
                   \<and> post_process repr ast_parse response src = Inl e)) \<longrightarrow>
            generate_docstrings repr ast_parse chain_invoke src world = (Inl e, world'))"
proof -
  let ?run = "generate_docstrings repr ast_parse chain_invoke src world"
  let ?by_call = "chain_invoke src world = (Inl e, world')"
  let ?by_post = "chain_invoke src world = (Inr response, world')
    \<and> post_process repr ast_parse response src = Inl e"
  from assms have nonempty: "src \<noteq> []"
    by (auto simp: strip_def rstrip_def lstrip_def)
  have handled: "?run = (except_Exception e, world')" if "?by_call \<or> ?by_post"
    using that assms nonempty by (auto simp: generate_docstrings_def)
  have caught: "?run = (Inr (error_marker @ exn_message e), world')"
    if "?by_call \<or> ?by_post" and "is_exception e"
    using handled [OF that(1)] that(2) by (simp add: except_Exception_def)
  have raised: "?run = (Inl e, world')"
    if "?by_call \<or> ?by_post" and "\<not> is_exception e"
    using handled [OF that(1)] that(2) by (simp add: except_Exception_def)
  have shape: "contains (error_marker @ m) error_marker \<and> contains (error_marker @ m) m" for m
    by simp
  have c1: "?by_call \<and> is_exception e \<longrightarrow> ?run = (Inr (error_marker @ exn_message e), world')"
    using caught by blast
  have c2: "(chain_invoke src world = (Inr response, world')
      \<and> post_process repr ast_parse response src = Inl e \<and> is_exception e)
      \<longrightarrow> ?run = (Inr (error_marker @ exn_message e), world')"
    using caught by blast
  have c3: "is_exception e \<and> (?by_call \<or> ?by_post) \<longrightarrow>
      (\<exists>result. fst ?run = Inr result \<and> contains result error_marker
         \<and> contains result (exn_message e))"
  proof
    assume a: "is_exception e \<and> (?by_call \<or> ?by_post)"
    then have "fst ?run = Inr (error_marker @ exn_message e)"
      using caught by simp
    with shape [of "exn_message e"] show "\<exists>result. fst ?run = Inr result
        \<and> contains result error_marker \<and> contains result (exn_message e)"
      by blast
  qed
  have c4: "\<not> is_exception e \<and> (?by_call \<or> ?by_post) \<longrightarrow> ?run = (Inl e, world')"
    using raised by blast
  from c1 c2 c3 c4 show ?thesis
    unfolding error_marker_def by (intro conjI)
qed

text \<open>
  The witness: a provider that raises an \<^verbatim>\<open>Exception\<close>; a provider whose response makes
  the extraction raise (\<^verbatim>\<open>[{'text': 5}]\<close>); a provider whose response passes \<^verbatim>\<open>strip()\<close>
  as \<^verbatim>\<open>bytes\<close> and fails in the fence test (\<^verbatim>\<open>{'text': b'abc'}\<close>); and a provider call
  ended by \<^verbatim>\<open>SystemExit\<close>, which is raised to the caller. The world counts the calls.
\<close>

theorem generate_docstrings_catches_witness:
  "generate_docstrings (\<lambda>v. []) (\<lambda>code. None)
     (\<lambda>code n. (Inl (PyExn ''RuntimeError'' ''quota exceeded''), Suc n)) ''x = 1'' (0::nat)
     = (Inr ''# Error generating docstrings: quota exceeded'', 1)
   \<and> generate_docstrings (\<lambda>v. []) (\<lambda>code. None)
     (\<lambda>code n. (Inr (PyList [PyDict [(''text'', PyObject ''int'' ''5'' None)]]), Suc n))
     ''x = 1'' (0::nat)
     = (Inr ''# Error generating docstrings: sequence item 0: expected str instance, int found'', 1)
   \<and> generate_docstrings (\<lambda>v. []) (\<lambda>code. None)
     (\<lambda>code n. (Inr (PyDict [(''text'', PyBytes ''abc'')]), Suc n)) ''x = 1'' (0::nat)
     = (Inr ''# Error generating docstrings: startswith first arg must be bytes or a tuple of bytes, not str'', 1)
   \<and> generate_docstrings (\<lambda>v. []) (\<lambda>code. None)
     (\<lambda>code n. (Inl (PyBaseExn ''SystemExit'' ''1''), Suc n)) ''x = 1'' (0::nat)
     = (Inl (PyBaseExn ''SystemExit'' ''1''), 1)"
proof -
  have not_blank: "strip ''x = 1'' \<noteq> []"
    by code_simp
  have raised_in_join: "post_process (\<lambda>v. []) (\<lambda>code. None)
      (PyList [PyDict [(''text'', PyObject ''int'' ''5'' None)]]) ''x = 1''
      = Inl (PyExn ''TypeError'' ''sequence item 0: expected str instance, int found'')"
    by code_simp
  have raised_in_fence: "post_process (\<lambda>v. []) (\<lambda>code. None)
      (PyDict [(''text'', PyBytes ''abc'')]) ''x = 1''
      = Inl (PyExn ''TypeError''
               ''startswith first arg must be bytes or a tuple of bytes, not str'')"
    by code_simp
  note by_call = generate_docstrings_catches [OF not_blank,
      where chain_invoke = "\<lambda>code n. (Inl (PyExn ''RuntimeError'' ''quota exceeded''), Suc n)"
        and world = "0::nat" and world' = "1::nat"
        and e = "PyExn ''RuntimeError'' ''quota exceeded''"
        and repr = "\<lambda>v. []" and ast_parse = "\<lambda>code. None"]
  note by_join = generate_docstrings_catches [OF not_blank,
      where chain_invoke =
          "\<lambda>code n. (Inr (PyList [PyDict [(''text'', PyObject ''int'' ''5'' None)]]), Suc n)"
        and world = "0::nat" and world' = "1::nat"
        and response = "PyList [PyDict [(''text'', PyObject ''int'' ''5'' None)]]"
        and e = "PyExn ''TypeError'' ''sequence item 0: expected str instance, int found''"
        and repr = "\<lambda>v. []" and ast_parse = "\<lambda>code. None"]
  note by_fence = generate_docstrings_catches [OF not_blank,
      where chain_invoke = "\<lambda>code n. (Inr (PyDict [(''text'', PyBytes ''abc'')]), Suc n)"
        and world = "0::nat" and world' = "1::nat"
        and response = "PyDict [(''text'', PyBytes ''abc'')]"
        and e = "PyExn ''TypeError''
                   ''startswith first arg must be bytes or a tuple of bytes, not str''"
        and repr = "\<lambda>v. []" and ast_parse = "\<lambda>code. None"]
  note by_exit = generate_docstrings_catches [OF not_blank,
      where chain_invoke = "\<lambda>code n. (Inl (PyBaseExn ''SystemExit'' ''1''), Suc n)"
        and world = "0::nat" and world' = "1::nat"
        and e = "PyBaseExn ''SystemExit'' ''1''"
        and repr = "\<lambda>v. []" and ast_parse = "\<lambda>code. None"]
  from by_call have first:
    "generate_docstrings (\<lambda>v. []) (\<lambda>code. None)
       (\<lambda>code n. (Inl (PyExn ''RuntimeError'' ''quota exceeded''), Suc n)) ''x = 1'' (0::nat)
     = (Inr ''# Error generating docstrings: quota exceeded'', 1)"
    by simp
  from by_join raised_in_join have second:
    "generate_docstrings (\<lambda>v. []) (\<lambda>code. None)
       (\<lambda>code n. (Inr (PyList [PyDict [(''text'', PyObject ''int'' ''5'' None)]]), Suc n))
       ''x = 1'' (0::nat)
     = (Inr ''# Error generating docstrings: sequence item 0: expected str instance, int found'', 1)"
    by simp
  from by_fence raised_in_fence have third:
    "generate_docstrings (\<lambda>v. []) (\<lambda>code. None)
       (\<lambda>code n. (Inr (PyDict [(''text'', PyBytes ''abc'')]), Suc n)) ''x = 1'' (0::nat)
     = (Inr ''# Error generating docstrings: startswith first arg must be bytes or a tuple of bytes, not str'', 1)"
    by simp
  from by_exit have fourth:
    "generate_docstrings (\<lambda>v. []) (\<lambda>code. None)
       (\<lambda>code n. (Inl (PyBaseExn ''SystemExit'' ''1''), Suc n)) ''x = 1'' (0::nat)
     = (Inl (PyBaseExn ''SystemExit'' ''1''), 1)"
    by simp
  from first second third fourth show ?thesis
    by (intro conjI)
qed

section \<open>Claims about the HTTP endpoint\<close>

text \<open>
  C10. When the request is not refused for its size, the handler answers with the
  string \<open>generate_docstrings\<close> returned and a message that depends on that string
  alone: \<^verbatim>\<open>Failed or empty input.\<close> exactly when the string contains \<^verbatim>\<open>Error:\<close> somewhere,
  \<^verbatim>\<open>Docstrings generated successfully!\<close> otherwise. (When \<open>generate_docstrings\<close> raises,
  there is no answer: the handler raises the same exception.)
\<close>

theorem generate_status_message:
  assumes "length (source_code request) \<le> 100000"
  shows "fst (generate repr ast_parse chain_invoke request world)
         = (case fst (generate_docstrings repr ast_parse chain_invoke (source_code request) world) of
              Inl e \<Rightarrow> Inl (Propagated e)
            | Inr documented \<Rightarrow>
                Inr \<lparr>documented_code = documented,
                     message =
                       (if contains documented ''Error:''
                        then ''Failed or empty input.''
                        else ''Docstrings generated successfully!'')\<rparr>)"
  using assms by (simp add: generate_def split: prod.splits sum.splits)

text \<open>
  The witness: generated code that mentions \<^verbatim>\<open>Error:\<close> in a string is reported as a
  failure although the generation went through.
\<close>

theorem generate_status_message_witness:
  \<open>fst (generate (\<lambda>v. []) (\<lambda>code. None) (\<lambda>code n. (Inr (PyStr ''print("Error: x")''), Suc n))
          \<lparr>source_code = ''print("Error: x")'', filename = ''snippet.py''\<rparr> (0::nat))
   = Inr \<lparr>documented_code = ''print("Error: x")'', message = ''Failed or empty input.''\<rparr>\<close>
proof -
  have size: \<open>length (source_code \<lparr>source_code = ''print("Error: x")'', filename = ''snippet.py''\<rparr>)
      \<le> 100000\<close>
    by simp
  have documented:
    \<open>fst (generate_docstrings (\<lambda>v. []) (\<lambda>code. None)
            (\<lambda>code n. (Inr (PyStr ''print("Error: x")''), Suc n)) ''print("Error: x")'' (0::nat))
     = Inr ''print("Error: x")''\<close>
    by code_simp
  have found: \<open>contains ''print("Error: x")'' ''Error:''\<close>
    by code_simp
  from generate_status_message [OF size, of "\<lambda>v. []" "\<lambda>code. None"
      \<open>\<lambda>code n. (Inr (PyStr ''print("Error: x")''), Suc n)\<close> "0::nat"] documented found
  show ?thesis by simp
qed

end
